theory Spec2Isabelle
  imports Complex_Main
begin

section \<open>Data model of the candle cache (market/kline\_cache.go)\<close>

text \<open>
  \<^verbatim>\<open>type TimeFrame string\<close>: a timeframe is a string, and six constants name the
  granularities the cache fetches. Any other string is still a value of the type, as in Go.
\<close>

type_synonym TimeFrame = string

definition TimeFrame5m :: TimeFrame where "TimeFrame5m = ''5m''"
definition TimeFrame15m :: TimeFrame where "TimeFrame15m = ''15m''"
definition TimeFrame30m :: TimeFrame where "TimeFrame30m = ''30m''"
definition TimeFrame1h :: TimeFrame where "TimeFrame1h = ''1h''"
definition TimeFrame4h :: TimeFrame where "TimeFrame4h = ''4h''"
definition TimeFrame1d :: TimeFrame where "TimeFrame1d = ''1d''"

text \<open>The slice literal that both \<^verbatim>\<open>InitSymbol\<close> and \<^verbatim>\<open>UpdateSymbol\<close> range over.\<close>

definition timeFrames :: "TimeFrame list" where
  "timeFrames =
     [TimeFrame5m, TimeFrame15m, TimeFrame30m, TimeFrame1h, TimeFrame4h, TimeFrame1d]"

definition BinanceIntervalMap :: "TimeFrame \<rightharpoonup> string" where
  "BinanceIntervalMap = map_of
     [(TimeFrame5m, ''5m''), (TimeFrame15m, ''15m''), (TimeFrame30m, ''30m''),
      (TimeFrame1h, ''1h''), (TimeFrame4h, ''4h''), (TimeFrame1d, ''1d'')]"

text \<open>\<^verbatim>\<open>BinanceIntervalMap[tf]\<close>: a missing key reads as Go's zero value, the empty string.\<close>

definition interval_of :: "TimeFrame \<Rightarrow> string" where
  "interval_of tf = (case BinanceIntervalMap tf of None \<Rightarrow> [] | Some s \<Rightarrow> s)"

text \<open>
  Modelled from the spec: the declaration of the \<^verbatim>\<open>Kline\<close> struct is not among the
  sources. Its fields are the ones the spec lists for a candle, which are also the only
  ones the cache and the detectors read: the opening time in epoch milliseconds and the
  five price and volume figures. The \<^verbatim>\<open>float64\<close> figures are taken as real numbers, so
  every comparison below is the exact one; \<^verbatim>\<open>OpenTime\<close> is only ever compared, so an
  unbounded integer stands for the \<^verbatim>\<open>int64\<close>.
\<close>

record Kline =
  OpenTime :: int
  Open :: real
  High :: real
  Low :: real
  Close :: real
  Volume :: real

record MultiTimeFrameKline =
  mtkSymbol :: string
  Data :: "TimeFrame \<rightharpoonup> Kline list"

record KlineCache =
  cache :: "string \<rightharpoonup> MultiTimeFrameKline"

text \<open>
  The failures of the cache, one constructor per \<^verbatim>\<open>fmt.Errorf\<close> of the source, the
  provider's own errors, and the run-time panic of a slice expression whose lower bound
  lies outside the slice.
\<close>

datatype error =
    NotInitialized string
  | TimeFrameNotFound TimeFrame string
  | NoKlinesAvailable
  | ProviderError string
  | SliceBoundsOutOfRange

text \<open>
  The provider \<^verbatim>\<open>kc.client.GetKlines(symbol, interval, limit)\<close> is outside the
  sources; it is a parameter of the operations that call it. One value of this type holds
  the answers the provider gives during one \<^verbatim>\<open>InitSymbol\<close> or \<^verbatim>\<open>UpdateSymbol\<close>
  call, which asks once per interval.

  Slices are lists here. The cache writes through a stored slice only at its last slot and
  past its end, and only while it holds the lock, so the values of the stored series are
  those of the lists as long as each answer of the provider is a slice of its own, which
  is assumed.
\<close>

type_synonym APIClient = "string \<Rightarrow> string \<Rightarrow> int \<Rightarrow> error + Kline list"

section \<open>Cache operations\<close>

text \<open>The body of the loop of \<^verbatim>\<open>InitSymbol\<close>: a failed fetch leaves the timeframe absent.\<close>

definition InitSymbol_body ::
  "APIClient \<Rightarrow> string \<Rightarrow> int \<Rightarrow> (TimeFrame \<rightharpoonup> Kline list) \<Rightarrow> TimeFrame
     \<Rightarrow> (TimeFrame \<rightharpoonup> Kline list)" where
  "InitSymbol_body client symbol maxKlines d tf =
     (case client symbol (interval_of tf) maxKlines of
        Inl err \<Rightarrow> d
      | Inr klines \<Rightarrow> d(tf \<mapsto> klines))"

definition InitSymbol :: "APIClient \<Rightarrow> string \<Rightarrow> int \<Rightarrow> KlineCache \<Rightarrow> error + KlineCache" where
  "InitSymbol client symbol maxKlines kc =
     (case cache kc symbol of
        Some mtk \<Rightarrow> Inr kc
      | None \<Rightarrow>
          Inr (kc\<lparr>cache := (cache kc)(symbol \<mapsto>
                 \<lparr>mtkSymbol = symbol,
                  Data = foldl (InitSymbol_body client symbol maxKlines) Map.empty timeFrames\<rparr>)\<rparr>))"

text \<open>
  The merge of \<^verbatim>\<open>UpdateSymbol\<close> for a non-empty stored series and a non-empty fetch:
  \<^verbatim>\<open>append(existingKlines, newKlines...)\<close> when the fetched latest candle is newer,
  the overwrite of the last slot otherwise, then the cut to the latest \<^verbatim>\<open>maxKeep\<close>.
\<close>

definition maxKeep :: nat where
  "maxKeep = 20"

definition merge_klines :: "Kline list \<Rightarrow> Kline list \<Rightarrow> Kline list" where
  "merge_klines existingKlines newKlines =
     (let lastExisting = last existingKlines;
          lastNew = last newKlines;
          merged = (if OpenTime lastNew > OpenTime lastExisting
                    then existingKlines @ newKlines
                    else existingKlines[length existingKlines - 1 := lastNew])
      in if length merged > maxKeep then drop (length merged - maxKeep) merged else merged)"

text \<open>
  The body of the loop of \<^verbatim>\<open>UpdateSymbol\<close>. \<^verbatim>\<open>mtk.Data[tf]\<close> of an absent timeframe
  is the nil slice, of length 0, so an absent series is adopted like an empty one. The
  three \<^verbatim>\<open>continue\<close> statements skip the cut to \<^verbatim>\<open>maxKeep\<close>.
\<close>

definition UpdateSymbol_body ::
  "APIClient \<Rightarrow> string \<Rightarrow> (TimeFrame \<rightharpoonup> Kline list) \<Rightarrow> TimeFrame
     \<Rightarrow> (TimeFrame \<rightharpoonup> Kline list)" where
  "UpdateSymbol_body client symbol d tf =
     (case client symbol (interval_of tf) 2 of
        Inl err \<Rightarrow> d
      | Inr newKlines \<Rightarrow>
          if length newKlines = 0 then d
          else let existingKlines = (case d tf of None \<Rightarrow> [] | Some ks \<Rightarrow> ks)
               in if length existingKlines = 0 then d(tf \<mapsto> newKlines)
                  else d(tf \<mapsto> merge_klines existingKlines newKlines))"

definition UpdateSymbol :: "APIClient \<Rightarrow> string \<Rightarrow> KlineCache \<Rightarrow> error + KlineCache" where
  "UpdateSymbol client symbol kc =
     (case cache kc symbol of
        None \<Rightarrow> Inl (NotInitialized symbol)
      | Some mtk \<Rightarrow>
          Inr (kc\<lparr>cache := (cache kc)(symbol \<mapsto>
                 mtk\<lparr>Data := foldl (UpdateSymbol_body client symbol) (Data mtk) timeFrames\<rparr>)\<rparr>))"

text \<open>
  \<^verbatim>\<open>GetKlines\<close>. When the series is longer than \<^verbatim>\<open>limit\<close> the source evaluates
  \<^verbatim>\<open>klines[len(klines)-limit:]\<close>; for a negative \<^verbatim>\<open>limit\<close> the lower bound exceeds the
  length (or, past the \<^verbatim>\<open>int\<close> range, wraps below zero) and the expression panics.
\<close>

definition GetKlines :: "KlineCache \<Rightarrow> string \<Rightarrow> TimeFrame \<Rightarrow> int \<Rightarrow> error + Kline list" where
  "GetKlines kc symbol timeFrame limit =
     (case cache kc symbol of
        None \<Rightarrow> Inl (NotInitialized symbol)
      | Some mtk \<Rightarrow>
          (case Data mtk timeFrame of
             None \<Rightarrow> Inl (TimeFrameNotFound timeFrame symbol)
           | Some klines \<Rightarrow>
               if int (length klines) \<le> limit then Inr klines
               else if limit < 0 then Inl SliceBoundsOutOfRange
               else Inr (drop (length klines - nat limit) klines)))"

definition GetLatestKline :: "KlineCache \<Rightarrow> string \<Rightarrow> TimeFrame \<Rightarrow> error + Kline" where
  "GetLatestKline kc symbol timeFrame =
     (case GetKlines kc symbol timeFrame 1 of
        Inl err \<Rightarrow> Inl err
      | Inr klines \<Rightarrow>
          if length klines = 0 then Inl NoKlinesAvailable else Inr (klines ! 0))"

definition GetLatestTwoKlines :: "KlineCache \<Rightarrow> string \<Rightarrow> TimeFrame \<Rightarrow> error + Kline list" where
  "GetLatestTwoKlines kc symbol timeFrame = GetKlines kc symbol timeFrame 2"

text \<open>
  \<^verbatim>\<open>GetKlineCache\<close> builds the cache with an empty map. A call of the write path is
  either \<^verbatim>\<open>InitSymbol\<close> or \<^verbatim>\<open>UpdateSymbol\<close>, each with the answers the provider
  gives during it; a failed \<^verbatim>\<open>UpdateSymbol\<close> leaves the cache as it was.
\<close>

definition GetKlineCache :: KlineCache where
  "GetKlineCache = \<lparr>cache = Map.empty\<rparr>"

datatype call =
    CallInitSymbol APIClient string int
  | CallUpdateSymbol APIClient string

fun run_call :: "KlineCache \<Rightarrow> call \<Rightarrow> KlineCache" where
  "run_call kc (CallInitSymbol client symbol maxKlines) =
     (case InitSymbol client symbol maxKlines kc of Inl err \<Rightarrow> kc | Inr kc' \<Rightarrow> kc')"
| "run_call kc (CallUpdateSymbol client symbol) =
     (case UpdateSymbol client symbol kc of Inl err \<Rightarrow> kc | Inr kc' \<Rightarrow> kc')"

definition run_calls :: "KlineCache \<Rightarrow> call list \<Rightarrow> KlineCache" where
  "run_calls kc cs = foldl run_call kc cs"

text \<open>The series stored for a symbol and timeframe, the nil slice when either is absent.\<close>

definition stored :: "KlineCache \<Rightarrow> string \<Rightarrow> TimeFrame \<Rightarrow> Kline list" where
  "stored kc symbol tf =
     (case cache kc symbol of
        None \<Rightarrow> []
      | Some mtk \<Rightarrow> (case Data mtk tf of None \<Rightarrow> [] | Some ks \<Rightarrow> ks))"

section \<open>Signal detection (market/signal\_detector.go)\<close>

text \<open>
  \<^verbatim>\<open>type SignalType string\<close> with its constants. The \<^verbatim>\<open>Reason\<close> field of a signal is
  display text that \<^verbatim>\<open>fmt.Sprintf\<close> renders from the ratios; it takes no part in any
  decision and is left out of the record.
\<close>

type_synonym SignalType = string

definition SignalBullishPinBar :: SignalType where "SignalBullishPinBar = ''bullish_pin_bar''"
definition SignalBearishPinBar :: SignalType where "SignalBearishPinBar = ''bearish_pin_bar''"
definition SignalVolumeSpike :: SignalType where "SignalVolumeSpike = ''volume_spike''"

record TradingSignal =
  Symbol :: string
  TimeFrame :: TimeFrame
  SignalType :: SignalType
  Direction :: string
  Price :: real
  StopLoss :: real
  Confidence :: int

text \<open>The four measures \<^verbatim>\<open>DetectPinBar\<close> computes from the latest candle.\<close>

definition body_of :: "Kline \<Rightarrow> real" where
  "body_of kline = \<bar>Close kline - Open kline\<bar>"

definition upperShadow_of :: "Kline \<Rightarrow> real" where
  "upperShadow_of kline = High kline - max (Open kline) (Close kline)"

definition lowerShadow_of :: "Kline \<Rightarrow> real" where
  "lowerShadow_of kline = min (Open kline) (Close kline) - Low kline"

definition totalRange_of :: "Kline \<Rightarrow> real" where
  "totalRange_of kline = High kline - Low kline"

definition calculatePinBarConfidence :: "real \<Rightarrow> real \<Rightarrow> real \<Rightarrow> real \<Rightarrow> int" where
  "calculatePinBarConfidence shadowLength body oppositeShadow totalRange =
     (let shadowRatio = shadowLength / totalRange;
          c1 = (if shadowRatio > 0.7 then 60 + 25
                else if shadowRatio > 0.6 then 60 + 20
                else if shadowRatio > 0.5 then 60 + 15
                else 60);
          bodyRatio = body / totalRange;
          c2 = (if bodyRatio < 0.15 then c1 + 10
                else if bodyRatio < 0.25 then c1 + 5
                else c1);
          c3 = (if oppositeShadow < body * 0.5 then c2 + 5 else c2)
      in if c3 > 100 then 100 else c3)"

definition DetectPinBar :: "KlineCache \<Rightarrow> string \<Rightarrow> TimeFrame \<Rightarrow> TradingSignal list" where
  "DetectPinBar kc symbol timeFrame =
     (case GetLatestKline kc symbol timeFrame of
        Inl err \<Rightarrow> []
      | Inr kline \<Rightarrow>
          let body = body_of kline;
              upperShadow = upperShadow_of kline;
              lowerShadow = lowerShadow_of kline;
              totalRange = totalRange_of kline
          in if totalRange = 0 \<or> body = 0 then []
             else
               (if lowerShadow > body * 1.5 \<and> body < totalRange * 0.3 \<and> upperShadow < body
                then [\<lparr>Symbol = symbol, TimeFrame = timeFrame,
                       SignalType = SignalBullishPinBar, Direction = ''long'',
                       Price = Close kline, StopLoss = Low kline * 0.997,
                       Confidence = calculatePinBarConfidence lowerShadow body upperShadow totalRange\<rparr>]
                else [])
               @
               (if upperShadow > body * 1.5 \<and> body < totalRange * 0.3 \<and> lowerShadow < body
                then [\<lparr>Symbol = symbol, TimeFrame = timeFrame,
                       SignalType = SignalBearishPinBar, Direction = ''short'',
                       Price = Close kline, StopLoss = High kline * 1.003,
                       Confidence = calculatePinBarConfidence upperShadow body lowerShadow totalRange\<rparr>]
                else []))"






section \<open>Auxiliary definitions for the statements\<close>

text \<open>
  What one round of the loop of \<^verbatim>\<open>UpdateSymbol\<close> makes of the map entry of its own
  timeframe, given the provider's answer, and what \<^verbatim>\<open>InitSymbol\<close> stores for an
  answer; \<^verbatim>\<open>update_series\<close> is the same on series, the nil slice standing for an
  absent entry. They are related to the loop bodies by lemmas, not assumed.
\<close>

definition update_entry :: "error + Kline list \<Rightarrow> Kline list option \<Rightarrow> Kline list option" where
  "update_entry r entry =
     (case r of
        Inl err \<Rightarrow> entry
      | Inr newKlines \<Rightarrow>
          if newKlines = [] then entry
          else (case entry of
                  None \<Rightarrow> Some newKlines
                | Some ks \<Rightarrow> if ks = [] then Some newKlines else Some (merge_klines ks newKlines)))"

definition init_entry :: "error + Kline list \<Rightarrow> Kline list option" where
  "init_entry r = (case r of Inl err \<Rightarrow> None | Inr klines \<Rightarrow> Some klines)"

definition update_series :: "error + Kline list \<Rightarrow> Kline list \<Rightarrow> Kline list" where
  "update_series r existing =
     (case r of
        Inl err \<Rightarrow> existing
      | Inr newKlines \<Rightarrow>
          if newKlines = [] then existing
          else if existing = [] then newKlines
          else merge_klines existing newKlines)"

text \<open>
  A series is ascending when its opening times strictly increase, which also makes them
  pairwise distinct. A provider answer is acceptable for a stored series when it is
  ascending itself and, if it is adopted as it is (the stored series is empty), has at
  most \<^verbatim>\<open>maxKeep\<close> candles; if it is merged, it either ends at the stored latest
  opening time (the overwrite) or begins after it (the append).
\<close>

definition ascending :: "Kline list \<Rightarrow> bool" where
  "ascending ks = sorted_wrt (<) (map OpenTime ks)"

definition series_ok :: "Kline list \<Rightarrow> bool" where
  "series_ok ks = (ascending ks \<and> length ks \<le> maxKeep)"

fun response_ok :: "Kline list \<Rightarrow> error + Kline list \<Rightarrow> bool" where
  "response_ok existing (Inl err) = True"
| "response_ok existing (Inr newKlines) =
     (ascending newKlines \<and>
      (if existing = [] then length newKlines \<le> maxKeep
       else newKlines = []
            \<or> OpenTime (last newKlines) = OpenTime (last existing)
            \<or> OpenTime (hd newKlines) > OpenTime (last existing)))"

text \<open>
  The answers of a call are acceptable in a cache when every fetch the call really makes
  is: \<^verbatim>\<open>InitSymbol\<close> fetches only for an unknown symbol, \<^verbatim>\<open>UpdateSymbol\<close> only for
  a known one.
\<close>

fun call_ok :: "KlineCache \<Rightarrow> call \<Rightarrow> bool" where
  "call_ok kc (CallInitSymbol client symbol maxKlines) =
     (if cache kc symbol = None
      then list_all (\<lambda>tf. response_ok [] (client symbol (interval_of tf) maxKlines)) timeFrames
      else True)"
| "call_ok kc (CallUpdateSymbol client symbol) =
     (if cache kc symbol = None then True
      else list_all (\<lambda>tf. response_ok (stored kc symbol tf) (client symbol (interval_of tf) 2))
             timeFrames)"

fun calls_ok :: "KlineCache \<Rightarrow> call list \<Rightarrow> bool" where
  "calls_ok kc [] = True"
| "calls_ok kc (c # cs) = (call_ok kc c \<and> calls_ok (run_call kc c) cs)"

definition cache_ok :: "KlineCache \<Rightarrow> bool" where
  "cache_ok kc = (\<forall>symbol tf. series_ok (stored kc symbol tf))"



text \<open>
  Concrete inputs for the worked examples: a flat candle at a given opening time and
  price, the provider that answers every request with the same candles, the cache that
  \<^verbatim>\<open>InitSymbol\<close> builds from it for one symbol (and the same cache written out), a run
  of consecutive candles, a sequence of calls, four candles for the detectors, and a
  signal with given key fields.
\<close>

definition candle :: "int \<Rightarrow> real \<Rightarrow> Kline" where
  "candle t p = \<lparr>OpenTime = t, Open = p, High = p, Low = p, Close = p, Volume = 0\<rparr>"

definition always :: "Kline list \<Rightarrow> APIClient" where
  "always ks = (\<lambda>symbol interval limit. Inr ks)"

definition cache_of :: "Kline list \<Rightarrow> KlineCache" where
  "cache_of ks = run_call GetKlineCache (CallInitSymbol (always ks) ''BTCUSDT'' 20)"

definition series_cache :: "Kline list \<Rightarrow> KlineCache" where
  "series_cache ks = \<lparr>cache = [''BTCUSDT'' \<mapsto> \<lparr>mtkSymbol = ''BTCUSDT'',
       Data = (\<lambda>tf. if tf \<in> set timeFrames then Some ks else None)\<rparr>]\<rparr>"

primrec candles_from :: "int \<Rightarrow> nat \<Rightarrow> Kline list" where
  "candles_from t 0 = []"
| "candles_from t (Suc n) = candle t 1 # candles_from (t + 1) n"

definition example_calls :: "call list" where
  "example_calls =
     [CallInitSymbol (always [candle 1 1, candle 2 1]) ''BTCUSDT'' 20,
      CallUpdateSymbol (always [candle 2 2]) ''BTCUSDT'',
      CallUpdateSymbol (always [candle 3 1]) ''BTCUSDT'']"

definition hammer :: Kline where
  "hammer = \<lparr>OpenTime = 1, Open = 100, High = 100.6, Low = 90, Close = 100.5, Volume = 10\<rparr>"





section \<open>The write path, entry by entry\<close>

lemmas TimeFrame_defs =
  TimeFrame5m_def TimeFrame15m_def TimeFrame30m_def TimeFrame1h_def TimeFrame4h_def
  TimeFrame1d_def

lemma distinct_timeFrames: "distinct timeFrames"
  by (simp add: timeFrames_def TimeFrame_defs)

lemma foldl_pointwise:
  assumes other: "\<And>d x y. y \<noteq> x \<Longrightarrow> f d x y = d y"
    and own: "\<And>d x. f d x x = g x (d x)"
    and dist: "distinct xs"
  shows "foldl f d xs y = (if y \<in> set xs then g y (d y) else d y)"
  using dist
proof (induction xs arbitrary: d)
  case Nil
  then show ?case by simp
next
  case (Cons x xs)
  show ?case
  proof (cases "y = x")
    case True
    with Cons show ?thesis by (simp add: own)
  next
    case False
    with Cons show ?thesis by (simp add: other)
  qed
qed

lemma UpdateSymbol_body_other:
  "y \<noteq> x \<Longrightarrow> UpdateSymbol_body client symbol d x y = d y"
  by (simp add: UpdateSymbol_body_def Let_def split: sum.splits)

lemma UpdateSymbol_body_own:
  "UpdateSymbol_body client symbol d x x = update_entry (client symbol (interval_of x) 2) (d x)"
  by (simp add: UpdateSymbol_body_def update_entry_def Let_def split: sum.splits option.splits)

lemma UpdateSymbol_Data:
  "foldl (UpdateSymbol_body client symbol) d timeFrames tf =
     (if tf \<in> set timeFrames then update_entry (client symbol (interval_of tf) 2) (d tf) else d tf)"
  by (rule foldl_pointwise[where g = "\<lambda>x. update_entry (client symbol (interval_of x) 2)"])
     (simp_all add: UpdateSymbol_body_other UpdateSymbol_body_own distinct_timeFrames)

lemma InitSymbol_body_other:
  "y \<noteq> x \<Longrightarrow> InitSymbol_body client symbol n d x y = d y"
  by (simp add: InitSymbol_body_def split: sum.splits)

lemma InitSymbol_body_own:
  "InitSymbol_body client symbol n d x x =
     (case client symbol (interval_of x) n of Inl err \<Rightarrow> d x | Inr klines \<Rightarrow> Some klines)"
  by (simp add: InitSymbol_body_def split: sum.splits)

lemma InitSymbol_Data:
  "foldl (InitSymbol_body client symbol n) Map.empty timeFrames tf =
     (if tf \<in> set timeFrames then init_entry (client symbol (interval_of tf) n) else None)"
proof -
  have "foldl (InitSymbol_body client symbol n) d timeFrames tf =
     (if tf \<in> set timeFrames
      then (case client symbol (interval_of tf) n of Inl err \<Rightarrow> d tf | Inr klines \<Rightarrow> Some klines)
      else d tf)" for d
    by (rule foldl_pointwise[where g = "\<lambda>x e. case client symbol (interval_of x) n of Inl err \<Rightarrow> e | Inr klines \<Rightarrow> Some klines"])
       (simp_all add: InitSymbol_body_other InitSymbol_body_own distinct_timeFrames)
  then show ?thesis by (simp add: init_entry_def split: sum.splits)
qed

lemma merge_klines_nonempty:
  "ks \<noteq> [] \<Longrightarrow> newKlines \<noteq> [] \<Longrightarrow> merge_klines ks newKlines \<noteq> []"
  by (auto simp: merge_klines_def Let_def maxKeep_def)

lemma merge_klines_length:
  "length (merge_klines ks newKlines) \<le> maxKeep"
  by (auto simp: merge_klines_def Let_def)

lemma merge_klines_last:
  "ks \<noteq> [] \<Longrightarrow> newKlines \<noteq> [] \<Longrightarrow> last (merge_klines ks newKlines) = last newKlines"
  by (auto simp: merge_klines_def Let_def maxKeep_def last_list_update)

lemma merge_klines_same_last:
  assumes "m \<noteq> []" "last m = last newKlines" "length m \<le> maxKeep"
  shows "merge_klines m newKlines = m"
proof -
  have "m[length m - 1 := last m] = m"
    using assms(1) by (metis last_conv_nth list_update_id)
  then show ?thesis using assms by (simp add: merge_klines_def Let_def)
qed

lemma update_entry_idem:
  assumes "\<And>ks. r = Inr ks \<Longrightarrow> length ks \<le> maxKeep"
  shows "update_entry r (update_entry r entry) = update_entry r entry"
proof (cases r)
  case (Inl e)
  then show ?thesis by (simp add: update_entry_def)
next
  case (Inr new)
  show ?thesis
  proof (cases "new = []")
    case True
    then show ?thesis using Inr by (simp add: update_entry_def)
  next
    case False
    have len: "length new \<le> maxKeep" using assms Inr by simp
    have self: "merge_klines new new = new"
      using False len by (simp add: merge_klines_same_last)
    have again: "merge_klines (merge_klines ks new) new = merge_klines ks new" if "ks \<noteq> []" for ks
      using that False
      by (simp add: merge_klines_same_last merge_klines_nonempty merge_klines_last merge_klines_length)
    show ?thesis using Inr False self again
      by (auto simp: update_entry_def merge_klines_nonempty split: option.splits)
  qed
qed

lemma InitSymbol_Data_fun:
  "foldl (InitSymbol_body client symbol n) Map.empty timeFrames =
     (\<lambda>tf. if tf \<in> set timeFrames then init_entry (client symbol (interval_of tf) n) else None)"
  by (rule ext) (simp add: InitSymbol_Data)

lemma UpdateSymbol_Data_fun:
  "foldl (UpdateSymbol_body client symbol) d timeFrames =
     (\<lambda>tf. if tf \<in> set timeFrames then update_entry (client symbol (interval_of tf) 2) (d tf) else d tf)"
  by (rule ext) (simp add: UpdateSymbol_Data)

lemma init_entry_simps [simp]:
  "init_entry (Inr ks) = Some ks" "init_entry (Inl e) = None"
  by (simp_all add: init_entry_def)

lemma merge_klines_alt:
  "merge_klines ks new =
     (let merged = (if OpenTime (last new) > OpenTime (last ks)
                    then ks @ new else ks[length ks - Suc 0 := last new])
      in drop (length merged - maxKeep) merged)"
  by (simp add: merge_klines_def Let_def)

lemma stored_InitSymbol:
  assumes "cache kc symbol = None"
  shows "stored (run_call kc (CallInitSymbol client symbol n)) s tf =
     (if s = symbol
      then (if tf \<in> set timeFrames
            then (case client symbol (interval_of tf) n of Inl err \<Rightarrow> [] | Inr ks \<Rightarrow> ks)
            else [])
      else stored kc s tf)"
  using assms
  by (simp add: stored_def InitSymbol_def InitSymbol_Data init_entry_def split: sum.splits)

lemma stored_InitSymbol_known:
  assumes "cache kc symbol \<noteq> None"
  shows "run_call kc (CallInitSymbol client symbol n) = kc"
  using assms by (auto simp: InitSymbol_def)

lemma stored_UpdateSymbol_unknown:
  assumes "cache kc symbol = None"
  shows "run_call kc (CallUpdateSymbol client symbol) = kc"
  using assms by (auto simp: UpdateSymbol_def)

lemma stored_update_entry:
  "(case update_entry r entry of None \<Rightarrow> [] | Some ks \<Rightarrow> ks) =
     update_series r (case entry of None \<Rightarrow> [] | Some ks \<Rightarrow> ks)"
  by (simp add: update_entry_def update_series_def split: sum.splits option.splits)

lemma stored_UpdateSymbol:
  assumes "cache kc symbol \<noteq> None"
  shows "stored (run_call kc (CallUpdateSymbol client symbol)) s tf =
     (if s = symbol \<and> tf \<in> set timeFrames
      then update_series (client symbol (interval_of tf) 2) (stored kc symbol tf)
      else stored kc s tf)"
  using assms
  by (auto simp: stored_def UpdateSymbol_def UpdateSymbol_Data stored_update_entry)

section \<open>Ascending series are preserved\<close>

lemma ascending_Nil [simp]: "ascending []"
  by (simp add: ascending_def)

lemma ascending_last_ge:
  "ascending ks \<Longrightarrow> k \<in> set ks \<Longrightarrow> OpenTime k \<le> OpenTime (last ks)"
proof (induction ks)
  case Nil
  then show ?case by simp
next
  case (Cons a ks)
  then show ?case by (cases "ks = []") (auto simp: ascending_def less_imp_le)
qed

lemma ascending_hd_le:
  "ascending ks \<Longrightarrow> k \<in> set ks \<Longrightarrow> OpenTime (hd ks) \<le> OpenTime k"
  by (cases ks) (auto simp: ascending_def less_imp_le)

lemma ascending_append:
  assumes "ascending ks" "ascending new" "ks \<noteq> []" "new \<noteq> []"
    "OpenTime (hd new) > OpenTime (last ks)"
  shows "ascending (ks @ new)"
proof -
  have "OpenTime x < OpenTime y" if "x \<in> set ks" "y \<in> set new" for x y
    using ascending_last_ge[OF assms(1) that(1)] ascending_hd_le[OF assms(2) that(2)] assms(5)
    by linarith
  then show ?thesis using assms(1,2) by (auto simp: ascending_def sorted_wrt_append)
qed

lemma ascending_overwrite:
  assumes "ascending ks" "ks \<noteq> []" "OpenTime k = OpenTime (last ks)"
  shows "ascending (ks[length ks - Suc 0 := k])"
proof -
  have "map OpenTime (ks[length ks - Suc 0 := k]) = (map OpenTime ks)[length ks - Suc 0 := OpenTime (last ks)]"
    by (simp add: map_update assms(3))
  also have "\<dots> = map OpenTime ks"
    using assms(2) by (simp add: last_conv_nth list_update_same_conv)
  finally show ?thesis using assms(1) by (simp add: ascending_def)
qed

lemma ascending_drop: "ascending ks \<Longrightarrow> ascending (drop n ks)"
  by (simp add: ascending_def drop_map[symmetric] sorted_wrt_drop)

lemma ascending_last_hd: "ascending ks \<Longrightarrow> ks \<noteq> [] \<Longrightarrow> OpenTime (hd ks) \<le> OpenTime (last ks)"
  by (simp add: ascending_hd_le)

lemma merge_klines_ascending:
  assumes "ascending ks" "ascending new" "ks \<noteq> []" "new \<noteq> []"
    and "OpenTime (last new) = OpenTime (last ks) \<or> OpenTime (hd new) > OpenTime (last ks)"
  shows "ascending (merge_klines ks new)"
proof -
  have "OpenTime (hd new) \<le> OpenTime (last new)"
    using assms(2,4) by (rule ascending_last_hd)
  with assms(5) have branch:
    "OpenTime (last new) > OpenTime (last ks) \<Longrightarrow> OpenTime (hd new) > OpenTime (last ks)"
    by linarith
  have "ascending (if OpenTime (last new) > OpenTime (last ks)
                    then ks @ new else ks[length ks - Suc 0 := last new])"
  proof (cases "OpenTime (last new) > OpenTime (last ks)")
    case True
    then show ?thesis using assms(1-4) branch by (simp add: ascending_append)
  next
    case False
    then have "OpenTime (last new) = OpenTime (last ks)" using assms(5) branch
      \<open>OpenTime (hd new) \<le> OpenTime (last new)\<close> by linarith
    then show ?thesis using False assms(1,3) by (simp add: ascending_overwrite)
  qed
  then show ?thesis unfolding merge_klines_alt Let_def by (rule ascending_drop)
qed

lemma series_ok_Nil [simp]: "series_ok []"
  by (simp add: series_ok_def ascending_def)

lemma update_series_ok:
  assumes "series_ok existing" "response_ok existing r"
  shows "series_ok (update_series r existing)"
proof (cases r)
  case (Inl e)
  then show ?thesis using assms by (simp add: update_series_def)
next
  case (Inr new)
  show ?thesis
  proof (cases "new = [] \<or> existing = []")
    case True
    then show ?thesis using assms Inr by (auto simp: update_series_def series_ok_def)
  next
    case False
    then have ne: "new \<noteq> []" "existing \<noteq> []" by simp_all
    have asc: "ascending new" "ascending existing" using assms Inr by (simp_all add: series_ok_def)
    have "ascending (merge_klines existing new)"
      using asc ne assms(2) Inr by (intro merge_klines_ascending) auto
    then show ?thesis using Inr ne
      by (simp add: update_series_def series_ok_def merge_klines_length)
  qed
qed

lemma run_call_ok:
  assumes "cache_ok kc" "call_ok kc c"
  shows "cache_ok (run_call kc c)"
proof (cases c)
  case (CallInitSymbol client symbol n)
  show ?thesis
  proof (cases "cache kc symbol = None")
    case True
    have "series_ok (case client symbol (interval_of tf) n of Inl err \<Rightarrow> [] | Inr ks \<Rightarrow> ks)"
      if "tf \<in> set timeFrames" for tf
      using assms(2) True that CallInitSymbol
      by (auto simp: list_all_iff series_ok_def split: sum.splits)
    then show ?thesis using assms(1) True
      unfolding cache_ok_def CallInitSymbol by (simp add: stored_InitSymbol del: run_call.simps)
  next
    case False
    then show ?thesis using assms(1) CallInitSymbol by (simp add: stored_InitSymbol_known del: run_call.simps)
  qed
next
  case (CallUpdateSymbol client symbol)
  show ?thesis
  proof (cases "cache kc symbol = None")
    case True
    then show ?thesis using assms(1) CallUpdateSymbol by (simp add: stored_UpdateSymbol_unknown del: run_call.simps)
  next
    case False
    have "series_ok (update_series (client symbol (interval_of tf) 2) (stored kc symbol tf))"
      if "tf \<in> set timeFrames" for tf
    proof (rule update_series_ok)
      show "series_ok (stored kc symbol tf)" using assms(1) by (simp add: cache_ok_def)
      show "response_ok (stored kc symbol tf) (client symbol (interval_of tf) 2)"
        using assms(2) False that CallUpdateSymbol by (simp add: list_all_iff)
    qed
    then show ?thesis using assms(1) False
      unfolding cache_ok_def CallUpdateSymbol by (simp add: stored_UpdateSymbol del: run_call.simps)
  qed
qed

lemma run_calls_ok:
  "cache_ok kc \<Longrightarrow> calls_ok kc cs \<Longrightarrow> cache_ok (run_calls kc cs)"
  unfolding run_calls_def
  by (induction cs arbitrary: kc) (simp_all add: run_call_ok)

lemma cache_ok_empty: "cache_ok GetKlineCache"
  by (simp add: cache_ok_def stored_def GetKlineCache_def)

section \<open>Reads\<close>

lemma GetKlines_NotInitialized_iff:
  "(\<exists>x. GetKlines kc symbol tf limit = Inl (NotInitialized x)) \<longleftrightarrow> cache kc symbol = None"
  by (auto simp: GetKlines_def split: option.splits)

lemma GetKlines_TimeFrameNotFound_iff:
  "(\<exists>x y. GetKlines kc symbol tf limit = Inl (TimeFrameNotFound x y)) \<longleftrightarrow>
     (\<exists>mtk. cache kc symbol = Some mtk \<and> Data mtk tf = None)"
  by (auto simp: GetKlines_def split: option.splits)

lemma GetKlines_result:
  "0 \<le> limit \<Longrightarrow> cache kc symbol = Some mtk \<Longrightarrow> Data mtk tf = Some ks \<Longrightarrow>
   GetKlines kc symbol tf limit = Inr (drop (length ks - min (nat limit) (length ks)) ks)"
  by (auto simp: GetKlines_def min_def)

lemma GetLatestKline_NoKlines_iff:
  "GetLatestKline kc symbol tf = Inl NoKlinesAvailable \<longleftrightarrow> GetKlines kc symbol tf 1 = Inr []"
  by (auto simp: GetLatestKline_def GetKlines_def split: option.splits sum.splits if_splits)

lemma GetLatestKline_propagates:
  "GetKlines kc symbol tf 1 = Inl e \<Longrightarrow> GetLatestKline kc symbol tf = Inl e"
  by (simp add: GetLatestKline_def)

lemma GetLatestTwoKlines_never_NoKlines:
  "GetLatestTwoKlines kc symbol tf \<noteq> Inl NoKlinesAvailable"
  by (auto simp: GetLatestTwoKlines_def GetKlines_def split: option.splits sum.splits if_splits)

section \<open>Detectors and grouping\<close>









section \<open>Evaluation of the worked examples\<close>

lemma always_apply: "always ks symbol interval limit = Inr ks"
  by (simp add: always_def)

lemma TimeFrame5m_in_timeFrames: "TimeFrame5m \<in> set timeFrames" by (simp add: timeFrames_def)

lemma cache_of_eq: "cache_of ks = series_cache ks"
  by (simp add: cache_of_def GetKlineCache_def InitSymbol_def InitSymbol_Data_fun always_def series_cache_def cong: if_cong)

lemma series_cache_UpdateSymbol:
  "UpdateSymbol (always new) ''BTCUSDT'' (series_cache ks) =
     Inr (series_cache (the (update_entry (Inr new) (Some ks))))"
  by (auto simp: UpdateSymbol_def series_cache_def UpdateSymbol_Data_fun always_def update_entry_def fun_eq_iff)

lemma run_call_Init_fresh:
  "run_call GetKlineCache (CallInitSymbol (always ks) ''BTCUSDT'' n) = series_cache ks"
  by (simp add: GetKlineCache_def InitSymbol_def InitSymbol_Data_fun always_def series_cache_def cong: if_cong)

lemma run_call_Update_series_cache:
  "run_call (series_cache ks) (CallUpdateSymbol (always new) ''BTCUSDT'') =
     series_cache (the (update_entry (Inr new) (Some ks)))"
  by (simp add: series_cache_UpdateSymbol)

lemma stored_series_cache:
  "stored (series_cache ks) ''BTCUSDT'' tf = (if tf \<in> set timeFrames then ks else [])"
  by (simp add: stored_def series_cache_def)

lemma cache_series_cache: "cache (series_cache ks) ''BTCUSDT'' \<noteq> None"
  by (simp add: series_cache_def)

lemma GetKlines_cache_of:
  "GetKlines (cache_of ks) ''BTCUSDT'' TimeFrame5m limit =
     (if int (length ks) \<le> limit then Inr ks
      else if limit < 0 then Inl SliceBoundsOutOfRange
      else Inr (drop (length ks - nat limit) ks))"
  by (simp add: cache_of_eq GetKlines_def series_cache_def TimeFrame5m_in_timeFrames)

lemma stored_cache_of: "stored (cache_of ks) ''BTCUSDT'' TimeFrame5m = ks"
  by (simp add: cache_of_eq stored_series_cache TimeFrame5m_in_timeFrames)

lemma stored_Update_series_cache:
  "stored (run_call (series_cache ks) (CallUpdateSymbol (always new) ''BTCUSDT'')) ''BTCUSDT'' TimeFrame5m
     = update_series (Inr new) ks"
  by (simp add: cache_series_cache stored_UpdateSymbol stored_series_cache always_def TimeFrame5m_in_timeFrames
        del: run_call.simps)


lemma length_candles_from [simp]: "length (candles_from t n) = n"
  by (induction n arbitrary: t) simp_all

lemma candles_from_bounds:
  "k \<in> set (candles_from t n) \<Longrightarrow> t \<le> OpenTime k \<and> OpenTime k < t + int n"
proof (induction n arbitrary: t)
  case 0
  then show ?case by simp
next
  case (Suc n)
  from Suc.prems have "k = candle t 1 \<or> k \<in> set (candles_from (t + 1) n)" by simp
  then show ?case
  proof
    assume "k = candle t 1"
    then show ?thesis by (simp add: candle_def)
  next
    assume "k \<in> set (candles_from (t + 1) n)"
    from Suc.IH[OF this] show ?thesis by simp
  qed
qed

lemma ascending_candles_from: "ascending (candles_from t n)"
proof (induction n arbitrary: t)
  case 0
  then show ?case by simp
next
  case (Suc n)
  have "OpenTime (candle t 1) < OpenTime k" if "k \<in> set (candles_from (t + 1) n)" for k
    using candles_from_bounds[OF that] by (simp add: candle_def)
  then show ?case using Suc[of "t + 1"] by (auto simp: ascending_def)
qed

lemma example_overwrite_step: "the (update_entry (Inr [candle 2 2]) (Some [candle 1 1, candle 2 1])) = [candle 1 1, candle 2 2]"
  by (simp add: update_entry_def merge_klines_def Let_def candle_def maxKeep_def)

lemma example_append_step: "the (update_entry (Inr [candle 3 1]) (Some [candle 1 1, candle 2 2])) = [candle 1 1, candle 2 2, candle 3 1]"
  by (simp add: update_entry_def merge_klines_def Let_def candle_def maxKeep_def)

lemma example_calls_run:
  "run_calls GetKlineCache example_calls = series_cache [candle 1 1, candle 2 2, candle 3 1]"
  by (simp add: run_calls_def example_calls_def run_call_Init_fresh run_call_Update_series_cache
       example_overwrite_step example_append_step del: run_call.simps)

lemma call_ok_Init_fresh:
  "call_ok GetKlineCache (CallInitSymbol (always ks) ''BTCUSDT'' n) = (ascending ks \<and> length ks \<le> maxKeep)"
  by (auto simp: GetKlineCache_def always_def list_all_iff timeFrames_def)

lemma call_ok_Update_series_cache:
  "call_ok (series_cache ks) (CallUpdateSymbol (always new) ''BTCUSDT'') = response_ok ks (Inr new)"
  by (auto simp: cache_series_cache stored_series_cache always_def list_all_iff timeFrames_def
           simp del: response_ok.simps)

lemma ascending_example_init: "ascending [candle 1 1, candle 2 1]" by (simp add: ascending_def candle_def)
lemma ascending_example_overwrite: "ascending [candle 2 2]" by (simp add: ascending_def candle_def)
lemma ascending_example_append: "ascending [candle 3 1]" by (simp add: ascending_def candle_def)

lemma example_calls_ok: "calls_ok GetKlineCache example_calls"
  by (simp add: example_calls_def run_call_Init_fresh run_call_Update_series_cache
       call_ok_Init_fresh call_ok_Update_series_cache example_overwrite_step ascending_example_init ascending_example_overwrite ascending_example_append maxKeep_def
       del: run_call.simps call_ok.simps) (simp add: candle_def)

section \<open>The claims\<close>

subsection \<open>C1: a new candle period\<close>

text \<open>
  C1 (as amended). Let the symbol be initialized, so that \<^verbatim>\<open>UpdateSymbol\<close> succeeds, let
  the timeframe be one of the six it fetches, and let its stored series be non-empty. If
  the provider answers with exactly one candle, whose opening time is strictly greater
  than the stored latest one, the new series is the old one followed by that candle, cut
  to its latest 20: its length is the smaller of the old length plus one and 20, it grows
  by exactly one element when the old series had fewer than 20, and its last two entries
  are the previous final candle followed by the fetched candle.
\<close>

theorem UpdateSymbol_new_period:
  assumes "UpdateSymbol client symbol kc = Inr kc'"
    and "tf \<in> set timeFrames"
    and "stored kc symbol tf \<noteq> []"
    and "client symbol (interval_of tf) 2 = Inr [c]"
    and "OpenTime c > OpenTime (last (stored kc symbol tf))"
  shows "stored kc' symbol tf
           = drop (length (stored kc symbol tf) + 1 - 20) (stored kc symbol tf @ [c])
       \<and> length (stored kc' symbol tf) = min (length (stored kc symbol tf) + 1) 20
       \<and> (length (stored kc symbol tf) < 20 \<longrightarrow>
            length (stored kc' symbol tf) = length (stored kc symbol tf) + 1)
       \<and> drop (length (stored kc' symbol tf) - 2) (stored kc' symbol tf)
           = [last (stored kc symbol tf), c]"
proof -
  define ks where "ks = stored kc symbol tf"
  have init: "cache kc symbol \<noteq> None"
    using assms(1) by (auto simp: UpdateSymbol_def split: option.splits)
  have kc': "kc' = run_call kc (CallUpdateSymbol client symbol)"
    using assms(1) by simp
  have "stored kc' symbol tf = update_series (Inr [c]) ks"
    unfolding kc' using assms(2,4) init by (simp add: stored_UpdateSymbol ks_def del: run_call.simps)
  also have "\<dots> = merge_klines ks [c]"
    using assms(3) by (simp add: update_series_def ks_def)
  also have "\<dots> = drop (length ks + 1 - 20) (ks @ [c])"
    using assms(5) by (simp add: merge_klines_alt Let_def ks_def maxKeep_def)
  finally have eq: "stored kc' symbol tf = drop (length ks + 1 - 20) (ks @ [c])" .
  have ne: "ks \<noteq> []" using assms(3) by (simp add: ks_def)
  have two: "drop (length ks - 1) (ks @ [c]) = [last ks, c]"
    using ne by (induction ks rule: rev_induct) simp_all
  have "drop (length (stored kc' symbol tf) - 2) (stored kc' symbol tf) = [last ks, c]"
    using ne two unfolding eq by (cases "length ks + 1 \<le> 20") (auto simp: Suc_diff_le)
  then show ?thesis using eq ne by (auto simp: ks_def[symmetric])
qed

text \<open>C1 (as amended) at a concrete input, with its hypotheses discharged there.\<close>

theorem UpdateSymbol_new_period_witness:
  "UpdateSymbol (always [candle 3 1]) ''BTCUSDT'' (cache_of [candle 1 1, candle 2 1])
     = Inr (series_cache [candle 1 1, candle 2 1, candle 3 1])
   \<and> TimeFrame5m \<in> set timeFrames
   \<and> stored (cache_of [candle 1 1, candle 2 1]) ''BTCUSDT'' TimeFrame5m \<noteq> []
   \<and> always [candle 3 1] ''BTCUSDT'' (interval_of TimeFrame5m) 2 = Inr [candle 3 1]
   \<and> OpenTime (candle 3 1) > OpenTime (last (stored (cache_of [candle 1 1, candle 2 1]) ''BTCUSDT'' TimeFrame5m))
   \<and> stored (series_cache [candle 1 1, candle 2 1, candle 3 1]) ''BTCUSDT'' TimeFrame5m
       = [candle 1 1, candle 2 1, candle 3 1]
   \<and> drop (length (stored (series_cache [candle 1 1, candle 2 1, candle 3 1]) ''BTCUSDT'' TimeFrame5m) - 2)
        (stored (series_cache [candle 1 1, candle 2 1, candle 3 1]) ''BTCUSDT'' TimeFrame5m)
       = [candle 2 1, candle 3 1]"
proof -
  let ?kc = "cache_of [candle 1 1, candle 2 1]"
  have h1: "UpdateSymbol (always [candle 3 1]) ''BTCUSDT'' ?kc
     = Inr (series_cache [candle 1 1, candle 2 1, candle 3 1])"
    by (simp add: cache_of_eq series_cache_UpdateSymbol update_entry_def merge_klines_def
          candle_def maxKeep_def Let_def)
  have h3: "stored ?kc ''BTCUSDT'' TimeFrame5m \<noteq> []" by (simp add: stored_cache_of)
  have h4: "always [candle 3 1] ''BTCUSDT'' (interval_of TimeFrame5m) 2 = Inr [candle 3 1]"
    by (simp add: always_apply)
  have h5: "OpenTime (candle 3 1) > OpenTime (last (stored ?kc ''BTCUSDT'' TimeFrame5m))"
    by (simp add: stored_cache_of candle_def)
  from UpdateSymbol_new_period[OF h1 TimeFrame5m_in_timeFrames h3 h4 h5] h1 TimeFrame5m_in_timeFrames h3 h4 h5
  show ?thesis by (simp add: stored_cache_of)
qed

text \<open>
  C1, as stated, fails at two inputs. With the series of candles 1 and 2 stored and the
  two-candle answer of candles 2 (refreshed) and 3, whose latest opening time 3 exceeds 2,
  the whole answer is appended: the series grows by two, and its last two entries are the
  two fetched candles, not the previous final candle and the fetched latest one. With 20
  candles stored and a single newer candle fetched, the series still has 20 candles.
\<close>

theorem UpdateSymbol_new_period_counterexample:
  "stored (cache_of [candle 1 1, candle 2 1]) ''BTCUSDT'' TimeFrame5m = [candle 1 1, candle 2 1]
   \<and> always [candle 2 2, candle 3 1] ''BTCUSDT'' (interval_of TimeFrame5m) 2 = Inr [candle 2 2, candle 3 1]
   \<and> OpenTime (candle 3 1) > OpenTime (candle 2 1)
   \<and> stored (run_call (cache_of [candle 1 1, candle 2 1])
               (CallUpdateSymbol (always [candle 2 2, candle 3 1]) ''BTCUSDT'')) ''BTCUSDT'' TimeFrame5m
       = [candle 1 1, candle 2 1, candle 2 2, candle 3 1]
   \<and> candle 2 2 \<noteq> candle 2 1
   \<and> length (stored (cache_of (candles_from 1 20)) ''BTCUSDT'' TimeFrame5m) = 20
   \<and> OpenTime (candle 21 1) > OpenTime (last (stored (cache_of (candles_from 1 20)) ''BTCUSDT'' TimeFrame5m))
   \<and> length (stored (run_call (cache_of (candles_from 1 20))
               (CallUpdateSymbol (always [candle 21 1]) ''BTCUSDT'')) ''BTCUSDT'' TimeFrame5m) = 20"
proof -
  have ne: "candles_from 1 20 \<noteq> []"
    using length_candles_from[of 1 20] by (metis list.size(3) zero_neq_numeral)
  then have "last (candles_from 1 20) \<in> set (candles_from 1 20)" by simp
  from candles_from_bounds[OF this] have l: "OpenTime (last (candles_from 1 20)) < 21" by simp
  then have "length (merge_klines (candles_from 1 20) [candle 21 1]) = 20"
    by (simp add: merge_klines_alt Let_def maxKeep_def candle_def)
  then show ?thesis using l ne
    by (simp add: cache_of_eq stored_series_cache TimeFrame5m_in_timeFrames stored_Update_series_cache update_series_def
          always_apply del: run_call.simps)
       (simp add: merge_klines_def Let_def maxKeep_def candle_def)
qed

subsection \<open>C2: the ordering invariant\<close>

text \<open>
  C2 (as amended). After any sequence of \<^verbatim>\<open>InitSymbol\<close> and \<^verbatim>\<open>UpdateSymbol\<close> calls on
  a fresh cache in which every provider answer is acceptable (ascending; at most 20
  candles when it is adopted as it is; when it is merged into a non-empty series, ending
  at the stored latest opening time or beginning after it), every stored series, for
  every symbol and timeframe, has strictly ascending, pairwise distinct opening times and
  at most 20 candles.
\<close>

theorem series_invariant:
  assumes "calls_ok GetKlineCache cs"
  shows "ascending (stored (run_calls GetKlineCache cs) symbol tf)
       \<and> distinct (map OpenTime (stored (run_calls GetKlineCache cs) symbol tf))
       \<and> length (stored (run_calls GetKlineCache cs) symbol tf) \<le> 20"
proof -
  have "series_ok (stored (run_calls GetKlineCache cs) symbol tf)"
    using run_calls_ok[OF cache_ok_empty assms] by (simp add: cache_ok_def)
  then show ?thesis
    by (auto simp: series_ok_def ascending_def maxKeep_def strict_sorted_iff)
qed

text \<open>C2 (as amended) at a concrete input, with its hypotheses discharged there.\<close>

theorem series_invariant_witness:
  "calls_ok GetKlineCache example_calls
   \<and> stored (run_calls GetKlineCache example_calls) ''BTCUSDT'' TimeFrame5m
       = [candle 1 1, candle 2 2, candle 3 1]
   \<and> ascending [candle 1 1, candle 2 2, candle 3 1]
   \<and> distinct (map OpenTime [candle 1 1, candle 2 2, candle 3 1])
   \<and> length [candle 1 1, candle 2 2, candle 3 1] \<le> 20"
proof -
  have h: "calls_ok GetKlineCache example_calls" by (rule example_calls_ok)
  have s: "stored (run_calls GetKlineCache example_calls) ''BTCUSDT'' TimeFrame5m
       = [candle 1 1, candle 2 2, candle 3 1]"
    by (simp add: example_calls_run stored_series_cache timeFrames_def)
  from series_invariant[OF h, of "''BTCUSDT''" TimeFrame5m] h s show ?thesis by simp
qed

text \<open>
  C2, as stated, fails although every provider answer is ascending: \<^verbatim>\<open>InitSymbol\<close>
  stores an answer of 21 candles whole; an answer that overlaps the stored series (candles
  2 and 3 onto candles 1 and 2) is appended whole and repeats opening time 2; and an
  answer older than the stored latest candle (candle 1 onto candles 1 and 2) overwrites
  the last slot and repeats opening time 1.
\<close>

theorem series_invariant_counterexample:
  "ascending (candles_from 1 21)
   \<and> length (stored (run_calls GetKlineCache
        [CallInitSymbol (always (candles_from 1 21)) ''BTCUSDT'' 21]) ''BTCUSDT'' TimeFrame5m) = 21
   \<and> ascending [candle 1 1, candle 2 1] \<and> ascending [candle 2 2, candle 3 1]
   \<and> stored (run_calls GetKlineCache
        [CallInitSymbol (always [candle 1 1, candle 2 1]) ''BTCUSDT'' 20,
         CallUpdateSymbol (always [candle 2 2, candle 3 1]) ''BTCUSDT'']) ''BTCUSDT'' TimeFrame5m
       = [candle 1 1, candle 2 1, candle 2 2, candle 3 1]
   \<and> \<not> distinct (map OpenTime [candle 1 1, candle 2 1, candle 2 2, candle 3 1])
   \<and> ascending [candle 1 1]
   \<and> stored (run_calls GetKlineCache
        [CallInitSymbol (always [candle 1 1, candle 2 1]) ''BTCUSDT'' 20,
         CallUpdateSymbol (always [candle 1 1]) ''BTCUSDT'']) ''BTCUSDT'' TimeFrame5m
       = [candle 1 1, candle 1 1]
   \<and> \<not> distinct (map OpenTime [candle 1 1, candle 1 1])"
  by (simp add: ascending_candles_from run_calls_def run_call_Init_fresh stored_series_cache TimeFrame5m_in_timeFrames
        stored_Update_series_cache update_series_def
        del: run_call.simps)
     (simp add: merge_klines_def Let_def maxKeep_def candle_def ascending_def)

subsection \<open>C3: the latest one and the latest two candles\<close>

text \<open>
  C3 (as amended). \<^verbatim>\<open>GetLatestKline\<close> fails with the no-data error exactly when
  \<^verbatim>\<open>GetKlines\<close> with limit 1 succeeds with an empty slice, and hands on any error of
  \<^verbatim>\<open>GetKlines\<close> unchanged. \<^verbatim>\<open>GetLatestTwoKlines\<close> also hands on any error of
  \<^verbatim>\<open>GetKlines\<close> (with limit 2) unchanged, but never fails with the no-data error: for
  an empty series it returns the empty slice.
\<close>

theorem GetLatest_no_data:
  "(GetLatestKline kc symbol tf = Inl NoKlinesAvailable \<longleftrightarrow> GetKlines kc symbol tf 1 = Inr [])
   \<and> (\<forall>e. GetKlines kc symbol tf 1 = Inl e \<longrightarrow> GetLatestKline kc symbol tf = Inl e)
   \<and> GetLatestTwoKlines kc symbol tf \<noteq> Inl NoKlinesAvailable
   \<and> (\<forall>e. GetKlines kc symbol tf 2 = Inl e \<longrightarrow> GetLatestTwoKlines kc symbol tf = Inl e)
   \<and> (GetKlines kc symbol tf 2 = Inr [] \<longrightarrow> GetLatestTwoKlines kc symbol tf = Inr [])"
  using GetLatestKline_NoKlines_iff GetLatestKline_propagates GetLatestTwoKlines_never_NoKlines
  by (simp add: GetLatestTwoKlines_def)

text \<open>C3 (as amended) at a concrete input, with its hypotheses discharged there.\<close>

theorem GetLatest_no_data_witness:
  "GetKlines GetKlineCache ''BTCUSDT'' TimeFrame5m 1 = Inl (NotInitialized ''BTCUSDT'')
   \<and> GetLatestKline GetKlineCache ''BTCUSDT'' TimeFrame5m = Inl (NotInitialized ''BTCUSDT'')
   \<and> GetKlines GetKlineCache ''BTCUSDT'' TimeFrame5m 2 = Inl (NotInitialized ''BTCUSDT'')
   \<and> GetLatestTwoKlines GetKlineCache ''BTCUSDT'' TimeFrame5m = Inl (NotInitialized ''BTCUSDT'')
   \<and> GetKlines (cache_of []) ''BTCUSDT'' TimeFrame5m 2 = Inr []
   \<and> GetLatestTwoKlines (cache_of []) ''BTCUSDT'' TimeFrame5m = Inr []
   \<and> GetKlines (cache_of []) ''BTCUSDT'' TimeFrame5m 1 = Inr []
   \<and> GetLatestKline (cache_of []) ''BTCUSDT'' TimeFrame5m = Inl NoKlinesAvailable"
proof -
  have a: "GetKlines GetKlineCache ''BTCUSDT'' TimeFrame5m 1 = Inl (NotInitialized ''BTCUSDT'')"
    and b: "GetKlines GetKlineCache ''BTCUSDT'' TimeFrame5m 2 = Inl (NotInitialized ''BTCUSDT'')"
    by (simp_all add: GetKlines_def GetKlineCache_def)
  have c: "GetKlines (cache_of []) ''BTCUSDT'' TimeFrame5m 2 = Inr []"
    and d: "GetKlines (cache_of []) ''BTCUSDT'' TimeFrame5m 1 = Inr []"
    by (simp_all add: GetKlines_cache_of)
  from GetLatest_no_data[of GetKlineCache "''BTCUSDT''" TimeFrame5m]
       GetLatest_no_data[of "cache_of []" "''BTCUSDT''" TimeFrame5m] a b c d
  show ?thesis by simp
qed

text \<open>
  C3, as stated, fails for \<^verbatim>\<open>GetLatestTwoKlines\<close>: on a symbol initialized with empty
  series, \<^verbatim>\<open>GetKlines\<close> succeeds with the empty slice and \<^verbatim>\<open>GetLatestTwoKlines\<close>
  returns that empty slice instead of the no-data error.
\<close>

theorem GetLatestTwoKlines_empty_counterexample:
  "GetKlines (cache_of []) ''BTCUSDT'' TimeFrame5m 2 = Inr []
   \<and> GetLatestTwoKlines (cache_of []) ''BTCUSDT'' TimeFrame5m = Inr []"
  by (simp add: GetLatestTwoKlines_def GetKlines_cache_of)

subsection \<open>C4: merge idempotence\<close>

text \<open>
  C4. If the symbol is initialized, so that \<^verbatim>\<open>UpdateSymbol\<close> succeeds, and the provider
  honours the limit of 2 candles it is asked for, a second \<^verbatim>\<open>UpdateSymbol\<close> with the
  same provider answers leaves the whole cache, hence the stored series of every
  timeframe, as the first call left it.
\<close>

theorem UpdateSymbol_idempotent:
  assumes "UpdateSymbol client symbol kc = Inr kc1"
    and "\<forall>tf \<in> set timeFrames. \<forall>ks. client symbol (interval_of tf) 2 = Inr ks \<longrightarrow> length ks \<le> 2"
  shows "UpdateSymbol client symbol kc1 = Inr kc1"
proof -
  from assms(1) obtain mtk where mtk: "cache kc symbol = Some mtk"
    by (auto simp: UpdateSymbol_def split: option.splits)
  define D where "D = foldl (UpdateSymbol_body client symbol) (Data mtk) timeFrames"
  have kc1: "kc1 = kc\<lparr>cache := (cache kc)(symbol \<mapsto> mtk\<lparr>Data := D\<rparr>)\<rparr>"
    using assms(1) mtk by (simp add: UpdateSymbol_def D_def)
  have "foldl (UpdateSymbol_body client symbol) D timeFrames tf = D tf" for tf
  proof (cases "tf \<in> set timeFrames")
    case True
    have "\<And>ks. client symbol (interval_of tf) 2 = Inr ks \<Longrightarrow> length ks \<le> maxKeep"
      using assms(2) True by (fastforce simp: maxKeep_def)
    then show ?thesis using True
      by (simp add: UpdateSymbol_Data D_def update_entry_idem)
  next
    case False
    then show ?thesis by (simp add: UpdateSymbol_Data)
  qed
  then have "foldl (UpdateSymbol_body client symbol) D timeFrames = D" by (rule ext)
  then show ?thesis by (simp add: kc1 UpdateSymbol_def)
qed

text \<open>C4 at a concrete input, with its hypotheses discharged there.\<close>

theorem UpdateSymbol_idempotent_witness:
  "UpdateSymbol (always [candle 2 1, candle 3 1]) ''BTCUSDT'' (cache_of [candle 1 1, candle 2 1])
     = Inr (series_cache [candle 1 1, candle 2 1, candle 2 1, candle 3 1])
   \<and> UpdateSymbol (always [candle 2 1, candle 3 1]) ''BTCUSDT'' (series_cache [candle 1 1, candle 2 1, candle 2 1, candle 3 1])
     = Inr (series_cache [candle 1 1, candle 2 1, candle 2 1, candle 3 1])"
proof -
  have h1: "UpdateSymbol (always [candle 2 1, candle 3 1]) ''BTCUSDT'' (cache_of [candle 1 1, candle 2 1])
     = Inr (series_cache [candle 1 1, candle 2 1, candle 2 1, candle 3 1])"
    by (simp add: cache_of_eq series_cache_UpdateSymbol update_entry_def merge_klines_def candle_def maxKeep_def Let_def)
  have h2: "\<forall>tf \<in> set timeFrames. \<forall>ks. always [candle 2 1, candle 3 1] ''BTCUSDT'' (interval_of tf) 2 = Inr ks \<longrightarrow> length ks \<le> 2"
    by (auto simp: always_def)
  from UpdateSymbol_idempotent[OF h1 h2] h1 h2 show ?thesis by blast
qed

subsection \<open>C5: bounded reads\<close>

text \<open>
  C5 (as amended). \<^verbatim>\<open>GetKlines\<close> fails with the not-initialized error exactly when the
  symbol has no record, and with the timeframe-not-found error exactly when the symbol has
  a record without a series for the timeframe. For a limit that is not negative and a
  stored series of length n, it returns the last min(limit, n) candles of the series, in
  stored order.
\<close>

theorem GetKlines_spec:
  "((\<exists>x. GetKlines kc symbol tf limit = Inl (NotInitialized x)) \<longleftrightarrow> cache kc symbol = None)
   \<and> ((\<exists>x y. GetKlines kc symbol tf limit = Inl (TimeFrameNotFound x y)) \<longleftrightarrow>
        (\<exists>mtk. cache kc symbol = Some mtk \<and> Data mtk tf = None))
   \<and> (0 \<le> limit \<longrightarrow>
        (\<forall>mtk ks. cache kc symbol = Some mtk \<and> Data mtk tf = Some ks \<longrightarrow>
           GetKlines kc symbol tf limit
             = Inr (drop (length ks - min (nat limit) (length ks)) ks)))"
  using GetKlines_NotInitialized_iff GetKlines_TimeFrameNotFound_iff GetKlines_result by blast

text \<open>C5 (as amended) at a concrete input, with its hypotheses discharged there.\<close>

theorem GetKlines_spec_witness:
  "(0::int) \<le> 2
   \<and> cache (cache_of [candle 1 1, candle 2 1, candle 3 1]) ''BTCUSDT''
       = Some \<lparr>mtkSymbol = ''BTCUSDT'',
              Data = (\<lambda>tf. if tf \<in> set timeFrames then Some [candle 1 1, candle 2 1, candle 3 1] else None)\<rparr>
   \<and> GetKlines (cache_of [candle 1 1, candle 2 1, candle 3 1]) ''BTCUSDT'' TimeFrame5m 2
       = Inr [candle 2 1, candle 3 1]"
proof -
  let ?ks = "[candle 1 1, candle 2 1, candle 3 1]"
  let ?mtk = "\<lparr>mtkSymbol = ''BTCUSDT'', Data = (\<lambda>tf. if tf \<in> set timeFrames then Some ?ks else None)\<rparr>"
  have c: "cache (cache_of ?ks) ''BTCUSDT'' = Some ?mtk"
    by (simp add: cache_of_eq series_cache_def)
  have d: "Data ?mtk TimeFrame5m = Some ?ks" by (simp add: TimeFrame5m_in_timeFrames)
  have z: "(0::int) \<le> 2" by simp
  have "GetKlines (cache_of ?ks) ''BTCUSDT'' TimeFrame5m 2
          = Inr (drop (length ?ks - min (nat 2) (length ?ks)) ?ks)"
    using GetKlines_spec[of "cache_of ?ks" "''BTCUSDT''" TimeFrame5m 2] c d z by blast
  then show ?thesis using c by simp
qed

text \<open>
  C5, as stated, fails for a negative limit: with one candle stored and limit -1 the slice
  expression \<^verbatim>\<open>klines[len(klines)-limit:]\<close> has its lower bound 2 beyond the length 1,
  and the call panics instead of returning candles.
\<close>

theorem GetKlines_negative_limit_counterexample:
  "GetKlines (cache_of [candle 1 1]) ''BTCUSDT'' TimeFrame5m (- 1) = Inl SliceBoundsOutOfRange"
  by (simp add: GetKlines_cache_of)

subsection \<open>C6: the bullish pin bar\<close>



subsection \<open>C7: the bullish engulfing pattern\<close>



subsection \<open>C8: grouping of signals\<close>




subsection \<open>C9: at most one pin-bar signal\<close>

text \<open>
  C9. \<^verbatim>\<open>DetectPinBar\<close> returns at most one signal per call: for a candle with a body
  greater than 0, the bullish condition (lower > 1.5 * body and upper < body) and the
  bearish condition (upper > 1.5 * body and lower < body) cannot both hold.
\<close>

theorem DetectPinBar_at_most_one:
  "length (DetectPinBar kc symbol tf) \<le> 1
   \<and> (0 < body_of k \<longrightarrow>
        \<not> ((lowerShadow_of k > body_of k * 1.5 \<and> upperShadow_of k < body_of k)
          \<and> (upperShadow_of k > body_of k * 1.5 \<and> lowerShadow_of k < body_of k)))"
proof -
  have "length (DetectPinBar kc symbol tf) \<le> 1"
  proof (cases "GetLatestKline kc symbol tf")
    case (Inl e)
    then show ?thesis by (simp add: DetectPinBar_def)
  next
    case (Inr k')
    have "0 \<le> body_of k'" by (simp add: body_of_def)
    then show ?thesis using Inr by (auto simp: DetectPinBar_def Let_def)
  qed
  then show ?thesis by auto
qed

text \<open>C9 at a concrete input, with its hypotheses discharged there.\<close>

theorem DetectPinBar_at_most_one_witness:
  "0 < body_of hammer
   \<and> \<not> ((lowerShadow_of hammer > body_of hammer * 1.5 \<and> upperShadow_of hammer < body_of hammer)
        \<and> (upperShadow_of hammer > body_of hammer * 1.5 \<and> lowerShadow_of hammer < body_of hammer))
   \<and> length (DetectPinBar (cache_of [hammer]) ''BTCUSDT'' TimeFrame5m) \<le> 1"
proof -
  have h: "0 < body_of hammer" by (simp add: body_of_def hammer_def)
  from DetectPinBar_at_most_one[of "cache_of [hammer]" "''BTCUSDT''" TimeFrame5m hammer] h
  show ?thesis by blast
qed

end
